theory Spec2Isabelle
  imports Main "HOL-Library.Sublist"
begin

section \<open>The browser as seen by verification/verify\_batch\_tab.py\<close>

text \<open>
  The script is one procedure, \<open>verify_batch_tab\<close>, that drives a browser through the
  Playwright synchronous API. Nothing in it computes: every line is a library call, a
  \<open>print\<close> or a \<open>time.sleep\<close>. What can be verified is its control flow: which calls
  are made, in which order, with which arguments, what happens when one of them raises,
  and which screenshot files come out.

  The browser and the application under test are outside the program. They are a
  parameter, the \<open>world\<close>: it says for every library call whether the call returns or
  raises, what \<open>is_visible()\<close> answers and how many elements \<open>all()\<close> finds. Every
  library call may raise, the ones in the handler and in the cleanup clause included.
  No run makes the same call twice (\<open>run_calls_distinct\<close> below), so a world that
  answers per call covers every way the browser can behave during a run.
  The built-ins \<open>print\<close> and \<open>time.sleep\<close> are taken to return normally.
  An exception is identified with its message, the text that \<open>print(f"Error: {e}")\<close>
  shows; every exception a call raises is an instance of \<open>Exception\<close>, which is what
  the handler's \<open>except Exception\<close> catches.
\<close>

type_synonym exn = string

text \<open>
  \<open>page.locator(sel).first\<close> is \<open>First sel\<close>; element \<open>i\<close> of the list
  \<open>page.locator(sel).all()\<close> is \<open>Nth sel i\<close>. Building a locator touches nothing in
  the browser; only the calls below do.
\<close>

datatype locator = First string | Nth string nat

text \<open>
  The library calls of the script, each with the arguments the source passes. An optional
  keyword argument that the source leaves out is \<open>None\<close>: the library then uses its
  default. Timeouts are in milliseconds, as in the source.
\<close>

datatype call =
    Playwright_start                                  \<comment> \<open>entering \<open>with sync_playwright() as p\<close>\<close>
  | Launch                                            \<comment> \<open>\<open>p.chromium.launch()\<close>\<close>
  | New_page                                          \<comment> \<open>\<open>browser.new_page()\<close>\<close>
  | Goto string                                       \<comment> \<open>\<open>page.goto(url)\<close>\<close>
  | Wait_for_selector string "nat option" "string option"
                                                      \<comment> \<open>\<open>page.wait_for_selector(sel, timeout=, state=)\<close>\<close>
  | Click_role string string                          \<comment> \<open>\<open>page.get_by_role(role, name=n).click()\<close>\<close>
  | Set_input_files string string                     \<comment> \<open>\<open>page.set_input_files(sel, path)\<close>\<close>
  | Is_visible locator                                \<comment> \<open>\<open>loc.is_visible()\<close>\<close>
  | Fill locator string                               \<comment> \<open>\<open>loc.fill(value)\<close>\<close>
  | Locator_all string                                \<comment> \<open>\<open>page.locator(sel).all()\<close>\<close>
  | Screenshot string "bool option"                   \<comment> \<open>\<open>page.screenshot(path=, full_page=)\<close>\<close>
  | Close                                             \<comment> \<open>\<open>browser.close()\<close>\<close>
  | Playwright_stop                                   \<comment> \<open>leaving the \<open>with\<close> block\<close>

record world =
  raises :: "call \<Rightarrow> exn option"      \<comment> \<open>\<open>Some e\<close>: the call raises \<open>e\<close>\<close>
  visible :: "locator \<Rightarrow> bool"         \<comment> \<open>the answer of \<open>is_visible()\<close>\<close>
  matches :: "string \<Rightarrow> nat"           \<comment> \<open>the length of the list \<open>all()\<close> returns\<close>

text \<open>What a run leaves behind, in order: console lines, pauses, and library calls with
  their outcome.\<close>

datatype event =
    Print string
  | Sleep nat
  | Ok call
  | Failed call exn

datatype result = Returned | Raised exn

type_synonym action = "world \<Rightarrow> event list \<Rightarrow> result \<times> event list"

subsection \<open>Statements\<close>

definition print_line :: "string \<Rightarrow> action" where
  "print_line s w t = (Returned, t @ [Print s])"

definition sleep :: "nat \<Rightarrow> action" where
  "sleep n w t = (Returned, t @ [Sleep n])"

definition invoke :: "call \<Rightarrow> action" where
  "invoke c w t =
     (case raises w c of
        None \<Rightarrow> (Returned, t @ [Ok c])
      | Some e \<Rightarrow> (Raised e, t @ [Failed c e]))"

text \<open>A sequence of statements stops at the first one that raises.\<close>

fun block :: "action list \<Rightarrow> action" where
  "block [] w t = (Returned, t)"
| "block (a # as) w t =
     (case a w t of
        (Returned, t') \<Rightarrow> block as w t'
      | (Raised e, t') \<Rightarrow> (Raised e, t'))"

text \<open>\<open>try: body except Exception as e: handler\<close>. An exception of the handler
  itself is not caught.\<close>

definition try_except :: "action \<Rightarrow> (exn \<Rightarrow> action) \<Rightarrow> action" where
  "try_except body handler w t =
     (case body w t of
        (Returned, t') \<Rightarrow> (Returned, t')
      | (Raised e, t') \<Rightarrow> handler e w t')"

text \<open>\<open>try: body finally: cleanup\<close>. The cleanup always runs; when it raises, its
  exception replaces the outcome of the body.\<close>

definition try_finally :: "action \<Rightarrow> action \<Rightarrow> action" where
  "try_finally body cleanup w t =
     (case body w t of
        (r, t') \<Rightarrow>
          (case cleanup w t' of
             (Returned, t'') \<Rightarrow> (r, t'')
           | (Raised e, t'') \<Rightarrow> (Raised e, t'')))"

text \<open>\<open>with sync_playwright() as p: body\<close>. The exit of the context manager runs on
  every way out of the body and does not suppress an exception of the body.\<close>

definition with_sync_playwright :: "action \<Rightarrow> action" where
  "with_sync_playwright body =
     block [invoke Playwright_start, try_finally body (invoke Playwright_stop)]"

subsection \<open>The script\<close>

definition app_url :: string where
  "app_url = ''http://localhost:3000''"

definition fixture_path :: string where
  "fixture_path = ''test_image.png''"

definition screenshot_path :: string where
  "screenshot_path = ''verification/batch_tab_verified.png''"

definition error_path :: string where
  "error_path = ''verification/error.png''"

definition width_input :: locator where
  "width_input = First ''input[value='1']''"

definition inputs_selector :: string where
  "inputs_selector = ''.space-y-1 input[type='number']''"

definition file_selector :: string where
  "file_selector = ''input[type='file']''"

text \<open>Lines 45 to 56: the width input.\<close>

definition adjust_width :: action where
  "adjust_width w t =
     (case invoke (Is_visible width_input) w t of
        (Raised e, t1) \<Rightarrow> (Raised e, t1)
      | (Returned, t1) \<Rightarrow>
          if visible w width_input then
            block [invoke (Fill width_input ''100''),
                   print_line ''Changed width to 100''] w t1
          else
            (case invoke (Locator_all inputs_selector) w t1 of
               (Raised e, t2) \<Rightarrow> (Raised e, t2)
             | (Returned, t2) \<Rightarrow>
                 if matches w inputs_selector \<noteq> 0 then
                   block [invoke (Fill (Nth inputs_selector 0) ''100''),
                          print_line ''Changed width to 100 (fallback)''] w t2
                 else
                   print_line ''Could not find width input'' w t2))"

text \<open>Lines 11 to 64: the body of the \<open>try\<close>.\<close>

definition try_body :: action where
  "try_body =
     block [
       print_line ''Navigating to app...'',
       invoke (Goto app_url),
       invoke (Wait_for_selector ''text=Image Modifier'' (Some 10000) None),
       print_line ''Clicking Batch Process tab...'',
       invoke (Click_role ''tab'' ''Batch Process''),
       invoke (Wait_for_selector ''text=Batch Processing'' None (Some ''visible'')),
       print_line ''Uploading image...'',
       invoke (Wait_for_selector file_selector None (Some ''attached'')),
       invoke (Set_input_files file_selector fixture_path),
       print_line ''Waiting for image to appear in list...'',
       invoke (Wait_for_selector ''text=test_image'' (Some 5000) None),
       print_line ''Checking settings panel...'',
       invoke (Wait_for_selector ''text=Image Settings'' None (Some ''visible'')),
       adjust_width,
       sleep 1,
       invoke (Screenshot screenshot_path None),
       print_line (''Screenshot saved to '' @ screenshot_path)]"

text \<open>Lines 66 to 68: the handler.\<close>

definition handler :: "exn \<Rightarrow> action" where
  "handler e =
     block [print_line (''Error: '' @ e),
            invoke (Screenshot error_path None)]"

definition verify_batch_tab :: action where
  "verify_batch_tab =
     with_sync_playwright
       (block [invoke Launch,
               invoke New_page,
               try_finally (try_except try_body handler) (invoke Close)])"

text \<open>\<open>if __name__ == "__main__": verify_batch_tab()\<close>. The interpreter exits with
  status 0 when the call returns and with status 1 on an uncaught exception.\<close>

definition exit_status :: "world \<Rightarrow> nat" where
  "exit_status w =
     (case fst (verify_batch_tab w []) of Returned \<Rightarrow> 0 | Raised e \<Rightarrow> 1)"

subsection \<open>What is observed of a run\<close>

text \<open>The event a library call leaves in the trace.\<close>

definition outcome :: "world \<Rightarrow> call \<Rightarrow> event" where
  "outcome w c = (case raises w c of None \<Rightarrow> Ok c | Some e \<Rightarrow> Failed c e)"

text \<open>The library calls that were made, whether they returned or raised.\<close>

fun attempted :: "event \<Rightarrow> call list" where
  "attempted (Ok c) = [c]"
| "attempted (Failed c e) = [c]"
| "attempted (Print s) = []"
| "attempted (Sleep n) = []"

definition calls :: "event list \<Rightarrow> call list" where
  "calls t = concat (map attempted t)"

text \<open>A screenshot file exists after the run when a \<open>page.screenshot\<close> call with its
  path returned.\<close>

fun written :: "event \<Rightarrow> string list" where
  "written (Ok (Screenshot p f)) = [p]"
| "written _ = []"

definition files_written :: "event list \<Rightarrow> string list" where
  "files_written t = concat (map written t)"

text \<open>The screenshot calls with their arguments: the path and \<open>full_page\<close>.\<close>

fun shot_of :: "call \<Rightarrow> (string \<times> bool option) list" where
  "shot_of (Screenshot p f) = [(p, f)]"
| "shot_of _ = []"

definition screenshots :: "event list \<Rightarrow> (string \<times> bool option) list" where
  "screenshots t = concat (map shot_of (calls t))"

text \<open>The extent of a screenshot. Playwright documents \<open>full_page\<close> as: when true,
  takes a screenshot of the full scrollable page instead of the currently visible
  viewport; defaults to false.\<close>

definition full_page :: "bool option \<Rightarrow> bool" where
  "full_page arg = (case arg of None \<Rightarrow> False | Some b \<Rightarrow> b)"

text \<open>The waits with their arguments: selector, \<open>timeout\<close> and \<open>state\<close>.\<close>

fun wait_of :: "call \<Rightarrow> (string \<times> nat option \<times> string option) list" where
  "wait_of (Wait_for_selector s tm st) = [(s, tm, st)]"
| "wait_of _ = []"

definition waits :: "event list \<Rightarrow> (string \<times> nat option \<times> string option) list" where
  "waits t = concat (map wait_of (calls t))"

text \<open>The inputs whose value a \<open>fill\<close> call sets, with the value.\<close>

fun fill_of :: "call \<Rightarrow> (locator \<times> string) list" where
  "fill_of (Fill l v) = [(l, v)]"
| "fill_of _ = []"

definition fills :: "event list \<Rightarrow> (locator \<times> string) list" where
  "fills t = concat (map fill_of (calls t))"




text \<open>The trace once the session exists: context entered, browser launched, page
  created. The \<open>try\<close> block starts from here.\<close>

definition session :: "event list" where
  "session = [Ok Playwright_start, Ok Launch, Ok New_page]"

subsection \<open>The script as a list of steps\<close>

text \<open>
  Apart from the branch on the width input, the \<open>try\<close> block is a straight line of
  prints, pauses and calls. Once the world has answered \<open>is_visible()\<close> and \<open>all()\<close>
  the branch is a straight line too. The lists below spell the lines out;
  \<open>try_body_steps\<close> proves that running them is running \<open>try_body\<close>.
\<close>

datatype stmt = Say string | Pause nat | Do call

fun exec :: "stmt \<Rightarrow> action" where
  "exec (Say s) = print_line s"
| "exec (Pause n) = sleep n"
| "exec (Do c) = invoke c"

fun run_result :: "world \<Rightarrow> stmt list \<Rightarrow> result" where
  "run_result w [] = Returned"
| "run_result w (Do c # ss) =
     (case raises w c of None \<Rightarrow> run_result w ss | Some e \<Rightarrow> Raised e)"
| "run_result w (s # ss) = run_result w ss"

fun run_trace :: "world \<Rightarrow> stmt list \<Rightarrow> event list" where
  "run_trace w [] = []"
| "run_trace w (Say s # ss) = Print s # run_trace w ss"
| "run_trace w (Pause n # ss) = Sleep n # run_trace w ss"
| "run_trace w (Do c # ss) =
     (case raises w c of None \<Rightarrow> Ok c # run_trace w ss | Some e \<Rightarrow> [Failed c e])"

fun planned :: "stmt \<Rightarrow> call list" where
  "planned (Do c) = [c]"
| "planned _ = []"

definition plan :: "stmt list \<Rightarrow> call list" where
  "plan ss = concat (map planned ss)"

definition steps_before_width :: "stmt list" where
  "steps_before_width =
     [Say ''Navigating to app...'',
      Do (Goto app_url),
      Do (Wait_for_selector ''text=Image Modifier'' (Some 10000) None),
      Say ''Clicking Batch Process tab...'',
      Do (Click_role ''tab'' ''Batch Process''),
      Do (Wait_for_selector ''text=Batch Processing'' None (Some ''visible'')),
      Say ''Uploading image...'',
      Do (Wait_for_selector file_selector None (Some ''attached'')),
      Do (Set_input_files file_selector fixture_path),
      Say ''Waiting for image to appear in list...'',
      Do (Wait_for_selector ''text=test_image'' (Some 5000) None),
      Say ''Checking settings panel...'',
      Do (Wait_for_selector ''text=Image Settings'' None (Some ''visible''))]"

definition width_steps :: "world \<Rightarrow> stmt list" where
  "width_steps w =
     Do (Is_visible width_input) #
     (if visible w width_input then
        [Do (Fill width_input ''100''), Say ''Changed width to 100'']
      else
        Do (Locator_all inputs_selector) #
        (if matches w inputs_selector \<noteq> 0 then
           [Do (Fill (Nth inputs_selector 0) ''100''),
            Say ''Changed width to 100 (fallback)'']
         else [Say ''Could not find width input'']))"

definition steps_after_width :: "stmt list" where
  "steps_after_width =
     [Pause 1,
      Do (Screenshot screenshot_path None),
      Say (''Screenshot saved to '' @ screenshot_path)]"

definition body_steps :: "world \<Rightarrow> stmt list" where
  "body_steps w = steps_before_width @ width_steps w @ steps_after_width"

text \<open>What the handler adds to the trace, and what is left of the outcome after the
  handler and after a cleanup call.\<close>

definition handler_events :: "world \<Rightarrow> result \<Rightarrow> event list" where
  "handler_events w r =
     (case r of
        Returned \<Rightarrow> []
      | Raised e \<Rightarrow> [Print (''Error: '' @ e), outcome w (Screenshot error_path None)])"

definition after_handler :: "world \<Rightarrow> result \<Rightarrow> result" where
  "after_handler w r =
     (case r of
        Returned \<Rightarrow> Returned
      | Raised e \<Rightarrow>
          (case raises w (Screenshot error_path None) of
             None \<Rightarrow> Returned
           | Some e' \<Rightarrow> Raised e'))"

definition after_cleanup :: "world \<Rightarrow> call \<Rightarrow> result \<Rightarrow> result" where
  "after_cleanup w c r = (case raises w c of None \<Rightarrow> r | Some e \<Rightarrow> Raised e)"

subsection \<open>Worlds\<close>

text \<open>A world in which no call raises; \<open>v\<close> is the answer of \<open>is_visible()\<close> and
  \<open>n\<close> the number of inputs \<open>all()\<close> finds.\<close>

definition healthy :: "bool \<Rightarrow> nat \<Rightarrow> world" where
  "healthy v n = \<lparr>raises = (\<lambda>c. None), visible = (\<lambda>l. v), matches = (\<lambda>s. n)\<rparr>"

text \<open>A world in which the listed calls raise the listed exceptions.\<close>

definition failing :: "(call \<times> exn) list \<Rightarrow> world" where
  "failing fs = \<lparr>raises = map_of fs, visible = (\<lambda>l. False), matches = (\<lambda>s. 0)\<rparr>"

text \<open>Nothing listens on port 3000.\<close>

definition unreachable :: world where
  "unreachable = failing [(Goto app_url, ''net::ERR_CONNECTION_REFUSED'')]"

text \<open>Nothing listens on port 3000, and the directory \<open>verification\<close> cannot be
  written.\<close>

definition unwritable :: world where
  "unwritable =
     failing [(Goto app_url, ''net::ERR_CONNECTION_REFUSED''),
              (Screenshot error_path None, ''Permission denied'')]"

text \<open>The fixture \<open>test_image.png\<close> is missing.\<close>

definition no_fixture :: world where
  "no_fixture = failing [(Set_input_files file_selector fixture_path, ''No such file'')]"

text \<open>The browser launches and then refuses to open a page.\<close>

definition no_page :: world where
  "no_page = failing [(New_page, ''Target closed'')]"

text \<open>The browser cannot be launched.\<close>

definition no_browser :: world where
  "no_browser = failing [(Launch, ''Executable not found'')]"

section \<open>Running a list of steps\<close>

lemma invoke_None: "raises w c = None \<Longrightarrow> invoke c w t = (Returned, t @ [Ok c])"
  by (simp add: invoke_def)

lemma invoke_Some: "raises w c = Some e \<Longrightarrow> invoke c w t = (Raised e, t @ [Failed c e])"
  by (simp add: invoke_def)

lemma block_exec: "block (map exec ss) w t = (run_result w ss, t @ run_trace w ss)"
proof (induction ss arbitrary: t)
  case Nil
  show ?case by simp
next
  case (Cons s ss)
  show ?case
  proof (cases s)
    case (Say x)
    then show ?thesis using Cons by (simp add: print_line_def)
  next
    case (Pause n)
    then show ?thesis using Cons by (simp add: sleep_def)
  next
    case (Do c)
    then show ?thesis using Cons by (cases "raises w c") (simp_all add: invoke_None invoke_Some)
  qed
qed

lemma block_exec_append:
  "block (map exec ss @ as) w t =
     (if run_result w ss = Returned then block as w (t @ run_trace w ss)
      else (run_result w ss, t @ run_trace w ss))"
proof (induction ss arbitrary: t)
  case Nil
  show ?case by simp
next
  case (Cons s ss)
  show ?case
  proof (cases s)
    case (Say x)
    then show ?thesis using Cons by (simp add: print_line_def)
  next
    case (Pause n)
    then show ?thesis using Cons by (simp add: sleep_def)
  next
    case (Do c)
    then show ?thesis using Cons by (cases "raises w c") (simp_all add: invoke_None invoke_Some)
  qed
qed

lemma run_result_append:
  "run_result w (xs @ ys) =
     (if run_result w xs = Returned then run_result w ys else run_result w xs)"
  by (induction w xs rule: run_result.induct) (simp_all split: option.splits)

lemma run_trace_append:
  "run_trace w (xs @ ys) =
     run_trace w xs @ (if run_result w xs = Returned then run_trace w ys else [])"
  by (induction w xs rule: run_trace.induct) (simp_all split: option.splits)

lemma adjust_width_steps:
  "adjust_width w t = (run_result w (width_steps w), t @ run_trace w (width_steps w))"
proof (cases "raises w (Is_visible width_input)")
  case (Some e)
  then show ?thesis by (simp add: adjust_width_def width_steps_def invoke_Some)
next
  case vis: None
  show ?thesis
  proof (cases "visible w width_input")
    case True
    have "adjust_width w t =
      block (map exec [Do (Fill width_input ''100''), Say ''Changed width to 100''])
        w (t @ [Ok (Is_visible width_input)])"
      using vis True by (simp add: adjust_width_def invoke_None)
    then show ?thesis
      using vis True unfolding block_exec by (simp add: width_steps_def)
  next
    case False
    show ?thesis
    proof (cases "raises w (Locator_all inputs_selector)")
      case (Some e)
      then show ?thesis
        using vis False by (simp add: adjust_width_def width_steps_def invoke_Some invoke_None)
    next
      case all: None
      show ?thesis
      proof (cases "matches w inputs_selector = 0")
        case True
        then show ?thesis
          using vis False all
          by (simp add: adjust_width_def width_steps_def invoke_None print_line_def)
      next
        case nz: False
        have "adjust_width w t =
          block (map exec [Do (Fill (Nth inputs_selector 0) ''100''),
                           Say ''Changed width to 100 (fallback)''])
            w (t @ [Ok (Is_visible width_input), Ok (Locator_all inputs_selector)])"
          using vis False all nz by (simp add: adjust_width_def invoke_None)
        then show ?thesis
          using vis False all nz unfolding block_exec by (simp add: width_steps_def)
      qed
    qed
  qed
qed

lemma try_body_steps:
  "try_body w t = (run_result w (body_steps w), t @ run_trace w (body_steps w))"
proof -
  have body: "try_body =
      block (map exec steps_before_width @ adjust_width # map exec steps_after_width)"
    by (simp add: try_body_def steps_before_width_def steps_after_width_def)
  show ?thesis
    unfolding body
    by (simp add: block_exec_append block_exec adjust_width_steps body_steps_def
        run_result_append run_trace_append split: result.splits)
qed

lemma handler_steps:
  "handler e w t =
     (after_handler w (Raised e), t @ handler_events w (Raised e))"
  by (cases "raises w (Screenshot error_path None)")
     (simp_all add: handler_def print_line_def invoke_None invoke_Some after_handler_def
        handler_events_def outcome_def)

lemma guarded_body:
  "try_except try_body handler w t =
     (after_handler w (run_result w (body_steps w)),
      t @ run_trace w (body_steps w) @ handler_events w (run_result w (body_steps w)))"
  by (cases "run_result w (body_steps w)")
     (simp_all add: try_except_def try_body_steps handler_steps after_handler_def
        handler_events_def)

lemma try_finally_invoke:
  assumes "body w t = (r, t')"
  shows "try_finally body (invoke c) w t = (after_cleanup w c r, t' @ [outcome w c])"
  using assms
  by (cases "raises w c")
     (simp_all add: try_finally_def invoke_None invoke_Some after_cleanup_def outcome_def)

text \<open>The whole run, once the session exists.\<close>

lemma run_with_session:
  assumes "raises w Playwright_start = None" "raises w Launch = None"
    "raises w New_page = None"
  shows "verify_batch_tab w [] =
    (after_cleanup w Playwright_stop
       (after_cleanup w Close (after_handler w (run_result w (body_steps w)))),
     session @ run_trace w (body_steps w) @ handler_events w (run_result w (body_steps w))
       @ [outcome w Close, outcome w Playwright_stop])"
proof -
  have guarded: "try_finally (try_except try_body handler) (invoke Close) w session =
      (after_cleanup w Close (after_handler w (run_result w (body_steps w))),
       session @ run_trace w (body_steps w) @ handler_events w (run_result w (body_steps w))
         @ [outcome w Close])"
    using try_finally_invoke [of "try_except try_body handler" w session _ _ Close,
        OF guarded_body]
    by simp
  have inner: "block [invoke Launch, invoke New_page,
        try_finally (try_except try_body handler) (invoke Close)] w [Ok Playwright_start] =
      (after_cleanup w Close (after_handler w (run_result w (body_steps w))),
       session @ run_trace w (body_steps w) @ handler_events w (run_result w (body_steps w))
         @ [outcome w Close])"
    using assms guarded by (simp add: invoke_None session_def split: result.splits)
  have "try_finally (block [invoke Launch, invoke New_page,
        try_finally (try_except try_body handler) (invoke Close)]) (invoke Playwright_stop)
        w [Ok Playwright_start] =
      (after_cleanup w Playwright_stop
         (after_cleanup w Close (after_handler w (run_result w (body_steps w)))),
       session @ run_trace w (body_steps w) @ handler_events w (run_result w (body_steps w))
         @ [outcome w Close, outcome w Playwright_stop])"
    using try_finally_invoke [of "block [invoke Launch, invoke New_page,
        try_finally (try_except try_body handler) (invoke Close)]" w "[Ok Playwright_start]"
        _ _ Playwright_stop, OF inner]
    by simp
  then show ?thesis
    using assms(1)
    by (simp add: verify_batch_tab_def with_sync_playwright_def invoke_None
        split: result.splits)
qed

text \<open>The run when the session cannot be set up.\<close>

lemma run_without_context:
  assumes "raises w Playwright_start = Some e"
  shows "verify_batch_tab w [] = (Raised e, [Failed Playwright_start e])"
  using assms by (simp add: verify_batch_tab_def with_sync_playwright_def invoke_Some)

lemma run_without_browser:
  assumes "raises w Playwright_start = None" "raises w Launch = Some e"
  shows "verify_batch_tab w [] =
    (after_cleanup w Playwright_stop (Raised e),
     [Ok Playwright_start, Failed Launch e, outcome w Playwright_stop])"
proof -
  have inner: "block [invoke Launch, invoke New_page,
        try_finally (try_except try_body handler) (invoke Close)] w [Ok Playwright_start] =
      (Raised e, [Ok Playwright_start, Failed Launch e])"
    using assms by (simp add: invoke_Some)
  show ?thesis
    using assms(1) try_finally_invoke [of "block [invoke Launch, invoke New_page,
        try_finally (try_except try_body handler) (invoke Close)]" w "[Ok Playwright_start]"
        _ _ Playwright_stop, OF inner]
    by (simp add: verify_batch_tab_def with_sync_playwright_def invoke_None
        split: result.splits)
qed

lemma run_without_page:
  assumes "raises w Playwright_start = None" "raises w Launch = None"
    "raises w New_page = Some e"
  shows "verify_batch_tab w [] =
    (after_cleanup w Playwright_stop (Raised e),
     [Ok Playwright_start, Ok Launch, Failed New_page e, outcome w Playwright_stop])"
proof -
  have inner: "block [invoke Launch, invoke New_page,
        try_finally (try_except try_body handler) (invoke Close)] w [Ok Playwright_start] =
      (Raised e, [Ok Playwright_start, Ok Launch, Failed New_page e])"
    using assms by (simp add: invoke_None invoke_Some)
  show ?thesis
    using assms(1) try_finally_invoke [of "block [invoke Launch, invoke New_page,
        try_finally (try_except try_body handler) (invoke Close)]" w "[Ok Playwright_start]"
        _ _ Playwright_stop, OF inner]
    by (simp add: verify_batch_tab_def with_sync_playwright_def invoke_None
        split: result.splits)
qed

section \<open>Observations distribute over the trace\<close>

lemma calls_simps:
  "calls [] = []"
  "calls (ev # t) = attempted ev @ calls t"
  "calls (t @ u) = calls t @ calls u"
  by (simp_all add: calls_def)

lemma attempted_outcome: "attempted (outcome w c) = [c]"
  by (cases "raises w c") (simp_all add: outcome_def)

lemma files_written_simps:
  "files_written [] = []"
  "files_written (ev # t) = written ev @ files_written t"
  "files_written (t @ u) = files_written t @ files_written u"
  by (simp_all add: files_written_def)

lemma written_outcome:
  "written (outcome w c) = (if raises w c = None then written (Ok c) else [])"
  by (cases "raises w c") (simp_all add: outcome_def)

lemma run_cases [case_names no_context no_browser no_page with_session]:
  obtains e where "raises w Playwright_start = Some e"
  | e where "raises w Playwright_start = None" "raises w Launch = Some e"
  | e where "raises w Playwright_start = None" "raises w Launch = None"
      "raises w New_page = Some e"
  | "raises w Playwright_start = None" "raises w Launch = None" "raises w New_page = None"
  by (cases "raises w Playwright_start"; cases "raises w Launch"; cases "raises w New_page")
     auto

section \<open>A run of steps follows the plan\<close>

lemma calls_follow_plan: "prefix (calls (run_trace w ss)) (plan ss)"
  by (induction w ss rule: run_trace.induct)
     (simp_all add: calls_simps plan_def split: option.splits)

lemma calls_complete: "run_result w ss = Returned \<Longrightarrow> calls (run_trace w ss) = plan ss"
  by (induction w ss rule: run_trace.induct)
     (simp_all add: calls_simps plan_def split: option.splits)

lemma calls_in_plan: "c \<in> set (calls (run_trace w ss)) \<Longrightarrow> c \<in> set (plan ss)"
  using calls_follow_plan [of w ss] set_mono_prefix by blast

lemma prints_in_steps: "Print s \<in> set (run_trace w ss) \<Longrightarrow> Say s \<in> set ss"
  by (induction w ss rule: run_trace.induct) (auto split: option.splits)

lemma failure_is_last:
  "run_result w ss = Raised e \<Longrightarrow> \<exists>pre c. run_trace w ss = pre @ [Failed c e]"
proof (induction w ss rule: run_trace.induct)
  case (1 w)
  then show ?case by simp
next
  case (2 w s ss)
  then obtain pre c where "run_trace w ss = pre @ [Failed c e]" by auto
  then have "run_trace w (Say s # ss) = (Print s # pre) @ [Failed c e]" by simp
  then show ?case by blast
next
  case (3 w n ss)
  then obtain pre c where "run_trace w ss = pre @ [Failed c e]" by auto
  then have "run_trace w (Pause n # ss) = (Sleep n # pre) @ [Failed c e]" by simp
  then show ?case by blast
next
  case (4 w c ss)
  show ?case
  proof (cases "raises w c")
    case None
    with 4 obtain pre c' where "run_trace w ss = pre @ [Failed c' e]" by auto
    with None have "run_trace w (Do c # ss) = (Ok c # pre) @ [Failed c' e]" by simp
    then show ?thesis by blast
  next
    case (Some e')
    with 4 have "run_trace w (Do c # ss) = [] @ [Failed c e]" by simp
    then show ?thesis by blast
  qed
qed

lemma prefix_concat_map:
  "prefix xs ys \<Longrightarrow> prefix (concat (map f xs)) (concat (map f ys))"
  by (auto simp: prefix_def)

lemma no_shot_no_file:
  "\<forall>p f. Screenshot p f \<notin> set (calls t) \<Longrightarrow> files_written t = []"
proof (induction t)
  case Nil
  show ?case by (simp add: files_written_simps)
next
  case (Cons ev t)
  then have rest: "files_written t = []" by (simp add: calls_simps)
  have "written ev = []"
  proof (cases ev)
    case (Ok c)
    with Cons.prems show ?thesis by (cases c) (auto simp: calls_simps)
  qed simp_all
  with rest show ?case by (simp add: files_written_simps)
qed

section \<open>The plan of the try block\<close>

lemma plan_body:
  "plan (body_steps w) =
     [Goto app_url,
      Wait_for_selector ''text=Image Modifier'' (Some 10000) None,
      Click_role ''tab'' ''Batch Process'',
      Wait_for_selector ''text=Batch Processing'' None (Some ''visible''),
      Wait_for_selector file_selector None (Some ''attached''),
      Set_input_files file_selector fixture_path,
      Wait_for_selector ''text=test_image'' (Some 5000) None,
      Wait_for_selector ''text=Image Settings'' None (Some ''visible''),
      Is_visible width_input] @
     (if visible w width_input then [Fill width_input ''100'']
      else Locator_all inputs_selector #
        (if matches w inputs_selector \<noteq> 0 then [Fill (Nth inputs_selector 0) ''100'']
         else [])) @
     [Screenshot screenshot_path None]"
  by (simp add: plan_def body_steps_def steps_before_width_def width_steps_def
      steps_after_width_def)

lemma body_files:
  "files_written (run_trace w (body_steps w)) =
     (if run_result w (body_steps w) = Returned then [screenshot_path] else [])"
proof -
  define before where "before = steps_before_width @ width_steps w"
  have "\<forall>p f. Screenshot p f \<notin> set (plan before)"
    by (simp add: before_def plan_def steps_before_width_def width_steps_def)
  then have "\<forall>p f. Screenshot p f \<notin> set (calls (run_trace w before))"
    using calls_in_plan by blast
  then have none: "files_written (run_trace w before) = []"
    by (rule no_shot_no_file)
  have body: "body_steps w = before @ steps_after_width"
    by (simp add: body_steps_def before_def)
  show ?thesis
    unfolding body run_trace_append run_result_append
    by (cases "raises w (Screenshot screenshot_path None)")
       (simp_all add: none files_written_simps steps_after_width_def)
qed

section \<open>Concrete runs\<close>

lemma failing_raises: "raises (failing fs) = map_of fs"
  by (simp add: failing_def)

lemma healthy_raises: "raises (healthy v n) c = None"
  by (simp add: healthy_def)

lemma after_cleanup_None: "raises w c = None \<Longrightarrow> after_cleanup w c r = r"
  by (simp add: after_cleanup_def)

lemma outcome_None: "raises w c = None \<Longrightarrow> outcome w c = Ok c"
  by (simp add: outcome_def)

lemma outcome_Some: "raises w c = Some e \<Longrightarrow> outcome w c = Failed c e"
  by (simp add: outcome_def)

lemma session_calls: "calls session = [Playwright_start, Launch, New_page]"
  by (simp add: session_def calls_simps)

lemma session_files: "files_written session = []"
  by (simp add: session_def files_written_simps)

lemma run_result_no_failure:
  "\<forall>c \<in> set (plan ss). raises w c = None \<Longrightarrow> run_result w ss = Returned"
  by (induction w ss rule: run_result.induct) (simp_all add: plan_def)

lemma healthy_body: "run_result (healthy v n) (body_steps (healthy v n)) = Returned"
  by (rule run_result_no_failure) (simp add: healthy_raises)


text \<open>Against an application that is not running, \<open>page.goto\<close> raises at once.\<close>

lemma unreachable_body:
  "try_body unreachable session =
     (Raised ''net::ERR_CONNECTION_REFUSED'',
      session @ [Print ''Navigating to app...'',
                 Failed (Goto app_url) ''net::ERR_CONNECTION_REFUSED''])"
  by (simp add: try_body_steps body_steps_def steps_before_width_def unreachable_def
      failing_raises)

lemma unwritable_body:
  "try_body unwritable session =
     (Raised ''net::ERR_CONNECTION_REFUSED'',
      session @ [Print ''Navigating to app...'',
                 Failed (Goto app_url) ''net::ERR_CONNECTION_REFUSED''])"
  by (simp add: try_body_steps body_steps_def steps_before_width_def unwritable_def
      failing_raises)

lemma unwritable_run:
  "verify_batch_tab unwritable [] =
     (Raised ''Permission denied'',
      session @ [Print ''Navigating to app...'',
                 Failed (Goto app_url) ''net::ERR_CONNECTION_REFUSED'',
                 Print ''Error: net::ERR_CONNECTION_REFUSED'',
                 Failed (Screenshot error_path None) ''Permission denied'',
                 Ok Close, Ok Playwright_stop])"
proof -
  have r: "raises unwritable Playwright_start = None" "raises unwritable Launch = None"
    "raises unwritable New_page = None" "raises unwritable Close = None"
    "raises unwritable Playwright_stop = None"
    "raises unwritable (Screenshot error_path None) = Some ''Permission denied''"
    by (simp_all add: unwritable_def failing_raises app_url_def)
  have b: "run_result unwritable (body_steps unwritable) = Raised ''net::ERR_CONNECTION_REFUSED''"
    "run_trace unwritable (body_steps unwritable) =
       [Print ''Navigating to app...'', Failed (Goto app_url) ''net::ERR_CONNECTION_REFUSED'']"
    using unwritable_body by (simp_all add: try_body_steps)
  show ?thesis
    by (simp add: run_with_session [OF r(1-3)] b r after_cleanup_None after_handler_def
        handler_events_def outcome_None outcome_Some)
qed

lemma no_fixture_body:
  "try_body no_fixture session =
     (Raised ''No such file'',
      session @
      [Print ''Navigating to app...'',
       Ok (Goto ''http://localhost:3000''),
       Ok (Wait_for_selector ''text=Image Modifier'' (Some 10000) None),
       Print ''Clicking Batch Process tab...'',
       Ok (Click_role ''tab'' ''Batch Process''),
       Ok (Wait_for_selector ''text=Batch Processing'' None (Some ''visible'')),
       Print ''Uploading image...'',
       Ok (Wait_for_selector ''input[type='file']'' None (Some ''attached'')),
       Failed (Set_input_files ''input[type='file']'' ''test_image.png'') ''No such file''])"
  by (simp add: try_body_steps body_steps_def steps_before_width_def no_fixture_def
      failing_raises app_url_def file_selector_def fixture_path_def)

lemma no_page_run:
  "verify_batch_tab no_page [] =
     (Raised ''Target closed'',
      [Ok Playwright_start, Ok Launch, Failed New_page ''Target closed'', Ok Playwright_stop])"
proof -
  have r: "raises no_page Playwright_start = None" "raises no_page Launch = None"
    "raises no_page New_page = Some ''Target closed''"
    "raises no_page Playwright_stop = None"
    by (simp_all add: no_page_def failing_raises)
  show ?thesis
    by (simp add: run_without_page [OF r(1-3)] after_cleanup_None r(4) outcome_None)
qed

section \<open>Facts about the try block\<close>

lemma body_calls_other:
  assumes "c \<in> set (calls (run_trace w (body_steps w)))"
  shows "c \<noteq> Playwright_start \<and> c \<noteq> Launch \<and> c \<noteq> New_page \<and> c \<noteq> Close \<and>
    c \<noteq> Playwright_stop \<and> c \<noteq> Screenshot error_path None"
proof -
  have "c \<in> set (plan (body_steps w))"
    using assms by (rule calls_in_plan)
  then show ?thesis
    unfolding plan_body
    by (auto simp: screenshot_path_def error_path_def split: if_splits)
qed

lemma handler_calls:
  "calls (handler_events w r) =
     (case r of Returned \<Rightarrow> [] | Raised e \<Rightarrow> [Screenshot error_path None])"
  by (cases r) (simp_all add: handler_events_def calls_simps attempted_outcome)

lemma screenshots_simps:
  "screenshots [] = []"
  "screenshots (ev # t) = concat (map shot_of (attempted ev)) @ screenshots t"
  "screenshots (t @ u) = screenshots t @ screenshots u"
  by (simp_all add: screenshots_def calls_simps)

lemma body_screenshots:
  assumes "run_result w (body_steps w) = Returned"
  shows "screenshots (run_trace w (body_steps w)) = [(screenshot_path, None)]"
proof -
  have "calls (run_trace w (body_steps w)) = plan (body_steps w)"
    using assms by (rule calls_complete)
  then show ?thesis
    by (simp add: screenshots_def plan_body)
qed

lemma body_ends_with_screenshot:
  assumes "run_result w (body_steps w) = Returned"
  shows "\<exists>t. run_trace w (body_steps w) =
    t @ [Ok (Screenshot screenshot_path None), Print (''Screenshot saved to '' @ screenshot_path)]"
proof -
  define before where "before = steps_before_width @ width_steps w"
  have body: "body_steps w = before @ steps_after_width"
    by (simp add: body_steps_def before_def)
  have ok: "run_result w before = Returned" "run_result w steps_after_width = Returned"
    using assms unfolding body run_result_append by (simp_all split: if_splits)
  then have shot: "raises w (Screenshot screenshot_path None) = None"
    by (simp add: steps_after_width_def split: option.splits)
  have "run_trace w (body_steps w) =
    (run_trace w before @ [Sleep 1]) @
      [Ok (Screenshot screenshot_path None), Print (''Screenshot saved to '' @ screenshot_path)]"
    unfolding body run_trace_append using ok shot by (simp add: steps_after_width_def)
  then show ?thesis by blast
qed

section \<open>A step of the try block raises\<close>

text \<open>
  The handler's own \<open>page.screenshot\<close> is a library call like the others and is not
  guarded. Against an unreachable application with an unwritable \<open>verification\<close>
  directory, \<open>page.goto\<close> raises, the handler is entered, its screenshot raises, and that
  exception leaves \<open>verify_batch_tab\<close>: no file is written.
\<close>

theorem step_failure_leaves_no_screenshot:
  "fst (try_body unwritable session) = Raised ''net::ERR_CONNECTION_REFUSED'' \<and>
   files_written (snd (verify_batch_tab unwritable [])) = [] \<and>
   fst (verify_batch_tab unwritable []) = Raised ''Permission denied''"
  by (simp add: unwritable_body unwritable_run files_written_simps session_files)

text \<open>
  C1 (amended). If a step of the \<open>try\<close> block raises \<open>e\<close>, the failing call is the
  last thing the block does: the steps after it are skipped. The handler prints
  \<open>Error: e\<close> and calls \<open>page.screenshot(path="verification/error.png")\<close>; then
  \<open>browser.close()\<close> and the exit of the Playwright context run. The handler does not
  re-raise \<open>e\<close>: \<open>verify_batch_tab\<close> raises only what the handler's screenshot call,
  \<open>browser.close()\<close> or the context exit raise, and returns normally when they return.
  \<open>verification/error.png\<close> is written exactly when the handler's screenshot call
  returns, and no other file is.
\<close>

theorem step_failure_handled:
  assumes "raises w Playwright_start = None" "raises w Launch = None"
    "raises w New_page = None"
    and "try_body w session = (Raised e, t)"
  shows "(\<exists>pre c. t = pre @ [Failed c e]) \<and>
     snd (verify_batch_tab w []) =
       t @ [Print (''Error: '' @ e), outcome w (Screenshot ''verification/error.png'' None),
            outcome w Close, outcome w Playwright_stop] \<and>
     fst (verify_batch_tab w []) =
       (case raises w Playwright_stop of
          Some x \<Rightarrow> Raised x
        | None \<Rightarrow>
            (case raises w Close of
               Some x \<Rightarrow> Raised x
             | None \<Rightarrow>
                 (case raises w (Screenshot ''verification/error.png'' None) of
                    Some x \<Rightarrow> Raised x
                  | None \<Rightarrow> Returned))) \<and>
     files_written (snd (verify_batch_tab w [])) =
       (if raises w (Screenshot ''verification/error.png'' None) = None
        then [''verification/error.png''] else [])"
proof -
  have res: "run_result w (body_steps w) = Raised e"
    and tr: "t = session @ run_trace w (body_steps w)"
    using assms(4) by (simp_all add: try_body_steps)
  obtain pre c where "run_trace w (body_steps w) = pre @ [Failed c e]"
    using failure_is_last [OF res] by blast
  then have "t = (session @ pre) @ [Failed c e]"
    using tr by simp
  then have last: "\<exists>pre c. t = pre @ [Failed c e]"
    by blast
  have files: "files_written t = []"
    using body_files [of w] res tr by (simp add: files_written_simps session_files)
  have run: "snd (verify_batch_tab w []) =
       t @ [Print (''Error: '' @ e), outcome w (Screenshot ''verification/error.png'' None),
            outcome w Close, outcome w Playwright_stop]"
    by (simp add: run_with_session [OF assms(1-3)] res tr handler_events_def error_path_def)
  have result: "fst (verify_batch_tab w []) =
       (case raises w Playwright_stop of
          Some x \<Rightarrow> Raised x
        | None \<Rightarrow>
            (case raises w Close of
               Some x \<Rightarrow> Raised x
             | None \<Rightarrow>
                 (case raises w (Screenshot ''verification/error.png'' None) of
                    Some x \<Rightarrow> Raised x
                  | None \<Rightarrow> Returned)))"
    by (simp add: run_with_session [OF assms(1-3)] res after_cleanup_def after_handler_def
        error_path_def split: option.splits)
  have written: "files_written (snd (verify_batch_tab w [])) =
       (if raises w (Screenshot ''verification/error.png'' None) = None
        then [''verification/error.png''] else [])"
    unfolding run
    by (simp add: files_written_simps files written_outcome)
  from last run result written show ?thesis by simp
qed

theorem step_failure_handled_witness:
  "try_body unreachable session =
     (Raised ''net::ERR_CONNECTION_REFUSED'',
      session @ [Print ''Navigating to app...'',
                 Failed (Goto app_url) ''net::ERR_CONNECTION_REFUSED'']) \<and>
   snd (verify_batch_tab unreachable []) =
     session @ [Print ''Navigating to app...'',
                Failed (Goto app_url) ''net::ERR_CONNECTION_REFUSED'',
                Print ''Error: net::ERR_CONNECTION_REFUSED'',
                Ok (Screenshot ''verification/error.png'' None),
                Ok Close, Ok Playwright_stop] \<and>
   fst (verify_batch_tab unreachable []) = Returned \<and>
   files_written (snd (verify_batch_tab unreachable [])) = [''verification/error.png'']"
proof -
  have r: "raises unreachable Playwright_start = None" "raises unreachable Launch = None"
    "raises unreachable New_page = None"
    and h: "raises unreachable (Screenshot ''verification/error.png'' None) = None"
      "raises unreachable Close = None" "raises unreachable Playwright_stop = None"
    by (simp_all add: unreachable_def failing_raises)
  show ?thesis
    using step_failure_handled [OF r unreachable_body] h
    by (simp add: unreachable_body outcome_None files_written_simps session_files)
qed

section \<open>What the caller sees\<close>

text \<open>
  In the same world the exception of the handler's screenshot reaches the caller, and
  the interpreter exits with status 1.
\<close>

theorem handler_failure_reaches_caller:
  "fst (try_body unwritable session) = Raised ''net::ERR_CONNECTION_REFUSED'' \<and>
   fst (verify_batch_tab unwritable []) \<noteq> Returned \<and>
   exit_status unwritable = 1"
  by (simp add: unwritable_body unwritable_run exit_status_def)

text \<open>
  C2 (amended). Once the browser is launched and the page created, whatever happens to
  the steps of the \<open>try\<close> block (unreachable target, missing fixture, missing width
  input, any other step failure), \<open>verify_batch_tab\<close> returns normally and the exit
  status is 0, provided the handler's screenshot call, \<open>browser.close()\<close> and the exit
  of the Playwright context do not raise themselves.
\<close>

theorem returns_when_handler_and_cleanup_return:
  assumes "raises w Playwright_start = None" "raises w Launch = None"
    "raises w New_page = None"
    and "raises w (Screenshot ''verification/error.png'' None) = None"
    and "raises w Close = None" "raises w Playwright_stop = None"
  shows "fst (verify_batch_tab w []) = Returned \<and> exit_status w = 0"
proof -
  have "after_handler w (run_result w (body_steps w)) = Returned"
    using assms(4) by (cases "run_result w (body_steps w)")
      (simp_all add: after_handler_def error_path_def)
  then have "fst (verify_batch_tab w []) = Returned"
    using assms(5,6) by (simp add: run_with_session [OF assms(1-3)] after_cleanup_None)
  then show ?thesis by (simp add: exit_status_def)
qed

theorem returns_when_handler_and_cleanup_return_witness:
  "fst (try_body no_fixture session) = Raised ''No such file'' \<and>
   fst (verify_batch_tab no_fixture []) = Returned \<and> exit_status no_fixture = 0"
proof -
  have r: "raises no_fixture Playwright_start = None" "raises no_fixture Launch = None"
    "raises no_fixture New_page = None"
    "raises no_fixture (Screenshot ''verification/error.png'' None) = None"
    "raises no_fixture Close = None" "raises no_fixture Playwright_stop = None"
    by (simp_all add: no_fixture_def failing_raises)
  show ?thesis
    using returns_when_handler_and_cleanup_return [OF r] by (simp add: no_fixture_body)
qed

section \<open>Closing the browser\<close>








section \<open>Screenshot files\<close>

text \<open>
  A browser that launches is not enough for a screenshot: when \<open>browser.new_page()\<close>
  raises, the \<open>try\<close> statement is never entered, and when the handler's screenshot
  raises, nothing is written either.
\<close>

theorem launched_without_screenshot:
  "Ok Launch \<in> set (snd (verify_batch_tab no_page [])) \<and>
   files_written (snd (verify_batch_tab no_page [])) = [] \<and>
   Ok Launch \<in> set (snd (verify_batch_tab unwritable [])) \<and>
   files_written (snd (verify_batch_tab unwritable [])) = []"
  by (simp add: no_page_run unwritable_run files_written_simps session_def)

text \<open>
  C4 (amended). For every run in which the page is created, at most one screenshot file
  is written, never both: \<open>verification/batch_tab_verified.png\<close> when no step of the
  \<open>try\<close> block raises; otherwise \<open>verification/error.png\<close>, provided the handler's
  screenshot call returns; when that call raises, no file is written.
\<close>

theorem one_screenshot_file:
  assumes "raises w Playwright_start = None" "raises w Launch = None"
    "raises w New_page = None"
  shows "files_written (snd (verify_batch_tab w [])) =
    (if fst (try_body w session) = Returned then [''verification/batch_tab_verified.png'']
     else if raises w (Screenshot ''verification/error.png'' None) = None
       then [''verification/error.png'']
     else [])"
proof (cases "run_result w (body_steps w)")
  case Returned
  then show ?thesis
    by (simp add: run_with_session [OF assms] try_body_steps files_written_simps
        session_files body_files handler_events_def written_outcome screenshot_path_def)
next
  case (Raised e)
  then show ?thesis
    by (simp add: run_with_session [OF assms] try_body_steps files_written_simps
        session_files body_files handler_events_def written_outcome error_path_def)
qed

theorem one_screenshot_file_witness:
  "files_written (snd (verify_batch_tab (healthy True 0) [])) =
     [''verification/batch_tab_verified.png''] \<and>
   files_written (snd (verify_batch_tab unreachable [])) = [''verification/error.png''] \<and>
   files_written (snd (verify_batch_tab unwritable [])) = []"
proof -
  have r: "raises unreachable Playwright_start = None" "raises unreachable Launch = None"
    "raises unreachable New_page = None"
    and h: "raises unreachable (Screenshot ''verification/error.png'' None) = None"
    by (simp_all add: unreachable_def failing_raises)
  have r': "raises unwritable Playwright_start = None" "raises unwritable Launch = None"
    "raises unwritable New_page = None"
    and h': "raises unwritable (Screenshot ''verification/error.png'' None) =
      Some ''Permission denied''"
    by (simp_all add: unwritable_def failing_raises error_path_def app_url_def)
  have ok: "fst (try_body (healthy True 0) session) = Returned"
    by (simp add: try_body_steps healthy_body)
  show ?thesis
    using one_screenshot_file [OF r] h one_screenshot_file [OF r'] h'
      one_screenshot_file [of "healthy True 0", OF healthy_raises healthy_raises healthy_raises]
    by (simp add: unreachable_body unwritable_body ok)
qed

text \<open>
  The success screenshot is taken by \<open>page.screenshot(path=screenshot_path)\<close>: no
  \<open>full_page\<close> argument is passed, so the library's default applies and the picture
  is of the viewport.
\<close>

theorem success_capture_is_viewport:
  "fst (verify_batch_tab (healthy True 0) []) = Returned \<and>
   screenshots (snd (verify_batch_tab (healthy True 0) [])) =
     [(''verification/batch_tab_verified.png'', None)] \<and>
   map (full_page \<circ> snd) (screenshots (snd (verify_batch_tab (healthy True 0) []))) = [False]"
  by (simp add: run_with_session healthy_raises healthy_body screenshots_simps
      body_screenshots handler_events_def outcome_None session_def screenshot_path_def
      full_page_def after_cleanup_None after_handler_def)

text \<open>
  C5 (amended). On the success path the last call of the \<open>try\<close> block is the one
  screenshot call of the run. It passes the fixed path
  \<open>verification/batch_tab_verified.png\<close> and no \<open>full_page\<close> argument, so it captures
  the viewport (the library default), not the whole scrollable page, and that file is
  the one written.
\<close>

theorem success_screenshot:
  assumes "raises w Playwright_start = None" "raises w Launch = None"
    "raises w New_page = None"
    and "fst (try_body w session) = Returned"
  shows "screenshots (snd (verify_batch_tab w [])) =
      [(''verification/batch_tab_verified.png'', None)] \<and>
    map (full_page \<circ> snd) (screenshots (snd (verify_batch_tab w []))) = [False] \<and>
    files_written (snd (verify_batch_tab w [])) = [''verification/batch_tab_verified.png''] \<and>
    (\<exists>t. snd (try_body w session) =
       t @ [Ok (Screenshot ''verification/batch_tab_verified.png'' None),
            Print ''Screenshot saved to verification/batch_tab_verified.png''])"
proof -
  have res: "run_result w (body_steps w) = Returned"
    using assms(4) by (simp add: try_body_steps)
  have shots: "screenshots (snd (verify_batch_tab w [])) =
      [(''verification/batch_tab_verified.png'', None)]"
    by (simp add: run_with_session [OF assms(1-3)] res screenshots_simps body_screenshots
        handler_events_def attempted_outcome session_def screenshot_path_def)
  have files: "files_written (snd (verify_batch_tab w [])) =
      [''verification/batch_tab_verified.png'']"
    by (simp add: run_with_session [OF assms(1-3)] res files_written_simps session_files
        body_files handler_events_def written_outcome screenshot_path_def)
  obtain t where "run_trace w (body_steps w) =
    t @ [Ok (Screenshot screenshot_path None), Print (''Screenshot saved to '' @ screenshot_path)]"
    using body_ends_with_screenshot [OF res] by blast
  then have "snd (try_body w session) =
       (session @ t) @ [Ok (Screenshot ''verification/batch_tab_verified.png'' None),
            Print ''Screenshot saved to verification/batch_tab_verified.png'']"
    by (simp add: try_body_steps screenshot_path_def)
  then have last: "\<exists>t. snd (try_body w session) =
       t @ [Ok (Screenshot ''verification/batch_tab_verified.png'' None),
            Print ''Screenshot saved to verification/batch_tab_verified.png'']"
    by blast
  from shots files last show ?thesis by (simp add: full_page_def)
qed

theorem success_screenshot_witness:
  "fst (try_body (healthy False 2) session) = Returned \<and>
   screenshots (snd (verify_batch_tab (healthy False 2) [])) =
      [(''verification/batch_tab_verified.png'', None)] \<and>
   files_written (snd (verify_batch_tab (healthy False 2) [])) =
      [''verification/batch_tab_verified.png'']"
proof -
  have ok: "fst (try_body (healthy False 2) session) = Returned"
    by (simp add: try_body_steps healthy_body)
  show ?thesis
    using success_screenshot [of "healthy False 2", OF healthy_raises healthy_raises
        healthy_raises ok] ok
    by simp
qed

section \<open>Every run, whatever the world\<close>

lemma waits_simps:
  "waits [] = []"
  "waits (ev # t) = concat (map wait_of (attempted ev)) @ waits t"
  "waits (t @ u) = waits t @ waits u"
  by (simp_all add: waits_def calls_simps)

lemma fills_simps:
  "fills [] = []"
  "fills (ev # t) = concat (map fill_of (attempted ev)) @ fills t"
  "fills (t @ u) = fills t @ fills u"
  by (simp_all add: fills_def calls_simps)

lemma outcome_not_print: "outcome w c \<noteq> Print s"
  by (cases "raises w c") (simp_all add: outcome_def)

lemma prints_complete:
  "run_result w ss = Returned \<Longrightarrow> Say s \<in> set ss \<Longrightarrow> Print s \<in> set (run_trace w ss)"
  by (induction w ss rule: run_trace.induct) (auto split: option.splits)

lemma distinct_prefix_of: "prefix xs ys \<Longrightarrow> distinct ys \<Longrightarrow> distinct xs"
  by (auto simp: prefix_def)

lemma plan_distinct: "distinct (plan (body_steps w))"
  by (simp add: plan_body file_selector_def inputs_selector_def width_input_def)

lemma plan_waits:
  "concat (map wait_of (plan (body_steps w))) =
     [(''text=Image Modifier'', Some 10000, None),
      (''text=Batch Processing'', None, Some ''visible''),
      (file_selector, None, Some ''attached''),
      (''text=test_image'', Some 5000, None),
      (''text=Image Settings'', None, Some ''visible'')]"
  by (simp add: plan_body)

lemma plan_fills:
  "concat (map fill_of (plan (body_steps w))) =
     (if visible w width_input then [(width_input, ''100'')]
      else if matches w inputs_selector \<noteq> 0 then [(Nth inputs_selector 0, ''100'')]
      else [])"
  by (simp add: plan_body)

lemma body_waits:
  "prefix (waits (run_trace w (body_steps w))) (concat (map wait_of (plan (body_steps w))))"
  unfolding waits_def by (rule prefix_concat_map) (rule calls_follow_plan)

lemma body_fills:
  "prefix (fills (run_trace w (body_steps w))) (concat (map fill_of (plan (body_steps w))))"
  unfolding fills_def by (rule prefix_concat_map) (rule calls_follow_plan)

lemma handler_waits: "waits (handler_events w r) = []"
  by (cases r) (simp_all add: waits_def handler_calls)

lemma handler_fills: "fills (handler_events w r) = []"
  by (cases r) (simp_all add: fills_def handler_calls)

text \<open>Outside the \<open>try\<close> block nothing waits and nothing is filled.\<close>

lemma run_waits:
  "waits (snd (verify_batch_tab w [])) = [] \<or>
   waits (snd (verify_batch_tab w [])) = waits (run_trace w (body_steps w))"
proof (cases rule: run_cases [of w])
  case (no_context e)
  then show ?thesis by (simp add: run_without_context waits_simps)
next
  case (no_browser e)
  then show ?thesis by (simp add: run_without_browser waits_simps attempted_outcome)
next
  case (no_page e)
  then show ?thesis by (simp add: run_without_page waits_simps attempted_outcome)
next
  case with_session
  then show ?thesis
    by (simp add: run_with_session waits_simps attempted_outcome handler_waits session_def)
qed

lemma run_fills:
  "fills (snd (verify_batch_tab w [])) = [] \<or>
   fills (snd (verify_batch_tab w [])) = fills (run_trace w (body_steps w))"
proof (cases rule: run_cases [of w])
  case (no_context e)
  then show ?thesis by (simp add: run_without_context fills_simps)
next
  case (no_browser e)
  then show ?thesis by (simp add: run_without_browser fills_simps attempted_outcome)
next
  case (no_page e)
  then show ?thesis by (simp add: run_without_page fills_simps attempted_outcome)
next
  case with_session
  then show ?thesis
    by (simp add: run_with_session fills_simps attempted_outcome handler_fills session_def)
qed

lemma run_calls_distinct: "distinct (calls (snd (verify_batch_tab w [])))"
proof (cases rule: run_cases [of w])
  case (no_context e)
  then show ?thesis by (simp add: run_without_context calls_simps)
next
  case (no_browser e)
  then show ?thesis by (simp add: run_without_browser calls_simps attempted_outcome)
next
  case (no_page e)
  then show ?thesis by (simp add: run_without_page calls_simps attempted_outcome)
next
  case with_session
  have body: "distinct (calls (run_trace w (body_steps w)))"
    using calls_follow_plan plan_distinct by (rule distinct_prefix_of)
  have handler: "distinct (calls (handler_events w r))"
    "set (calls (handler_events w r)) \<subseteq> {Screenshot error_path None}" for r
    by (cases r; simp add: handler_calls)+
  show ?thesis
    using body handler [of "run_result w (body_steps w)"] body_calls_other [of _ w]
    by (auto simp: run_with_session [OF with_session] calls_simps session_calls
        attempted_outcome)
qed

lemma run_prints:
  assumes "Print s \<in> set (snd (verify_batch_tab w []))"
  shows "Say s \<in> set (body_steps w) \<or> (\<exists>e. s = ''Error: '' @ e)"
proof (cases rule: run_cases [of w])
  case (no_context e)
  then show ?thesis using assms by (simp add: run_without_context)
next
  case (no_browser e)
  then show ?thesis using assms by (simp add: run_without_browser outcome_not_print [symmetric])
next
  case (no_page e)
  then show ?thesis using assms by (simp add: run_without_page outcome_not_print [symmetric])
next
  case with_session
  have "Print s \<in> set (run_trace w (body_steps w)) \<or>
      Print s \<in> set (handler_events w (run_result w (body_steps w)))"
    using assms
    by (auto simp: run_with_session [OF with_session] session_def outcome_not_print [symmetric])
  then show ?thesis
  proof
    assume "Print s \<in> set (run_trace w (body_steps w))"
    then show ?thesis using prints_in_steps by blast
  next
    assume "Print s \<in> set (handler_events w (run_result w (body_steps w)))"
    then show ?thesis
      by (cases "run_result w (body_steps w)")
         (auto simp: handler_events_def outcome_not_print [symmetric])
  qed
qed

lemma no_failure_result:
  assumes "\<forall>c. raises w c = None"
  shows "verify_batch_tab w [] =
    (Returned, session @ run_trace w (body_steps w) @ [Ok Close, Ok Playwright_stop])"
    and "run_result w (body_steps w) = Returned"
proof -
  show res: "run_result w (body_steps w) = Returned"
    using assms by (simp add: run_result_no_failure)
  show "verify_batch_tab w [] =
    (Returned, session @ run_trace w (body_steps w) @ [Ok Close, Ok Playwright_stop])"
    using assms
    by (simp add: run_with_session res after_cleanup_None after_handler_def
        handler_events_def outcome_None)
qed

lemma width_trace:
  "run_trace w (width_steps w) =
     (if raises w (Is_visible width_input) \<noteq> None then [outcome w (Is_visible width_input)]
      else if visible w width_input then
        Ok (Is_visible width_input) # outcome w (Fill width_input ''100'') #
          (if raises w (Fill width_input ''100'') = None then [Print ''Changed width to 100'']
           else [])
      else if raises w (Locator_all inputs_selector) \<noteq> None then
        [Ok (Is_visible width_input), outcome w (Locator_all inputs_selector)]
      else if matches w inputs_selector \<noteq> 0 then
        Ok (Is_visible width_input) # Ok (Locator_all inputs_selector) #
          outcome w (Fill (Nth inputs_selector 0) ''100'') #
          (if raises w (Fill (Nth inputs_selector 0) ''100'') = None
           then [Print ''Changed width to 100 (fallback)''] else [])
      else [Ok (Is_visible width_input), Ok (Locator_all inputs_selector),
            Print ''Could not find width input''])"
  by (auto simp: width_steps_def outcome_def split: option.splits)

lemma healthy_answers: "visible (healthy v n) l = v" "matches (healthy v n) s = n"
  by (simp_all add: healthy_def)

section \<open>The width input\<close>

text \<open>
  C6. The width step is an ordered chain. Selectors are carried as the source writes
  them; which elements they match is the browser's answer. When
  \<open>page.locator("input[value='1']").first\<close> is visible, it is filled with \<open>100\<close> and
  nothing else is looked up. Otherwise \<open>page.locator(".space-y-1 input[type='number']").all()\<close>
  is asked, and when it finds inputs, the first is filled with \<open>100\<close>. Otherwise nothing
  is filled, \<open>Could not find width input\<close> is printed, the step returns without an error,
  and a run in which nothing else fails returns with the success screenshot written.
\<close>

theorem width_fallback_chain:
  assumes "raises w (Is_visible (First ''input[value='1']'')) = None"
  shows
    "(visible w (First ''input[value='1']'') \<longrightarrow>
        snd (adjust_width w t) =
          t @ Ok (Is_visible (First ''input[value='1']'')) #
              outcome w (Fill (First ''input[value='1']'') ''100'') #
              (if raises w (Fill (First ''input[value='1']'') ''100'') = None
               then [Print ''Changed width to 100''] else [])) \<and>
     (\<not> visible w (First ''input[value='1']'') \<longrightarrow>
        raises w (Locator_all ''.space-y-1 input[type='number']'') = None \<longrightarrow>
        (matches w ''.space-y-1 input[type='number']'' \<noteq> 0 \<longrightarrow>
           snd (adjust_width w t) =
             t @ Ok (Is_visible (First ''input[value='1']'')) #
                 Ok (Locator_all ''.space-y-1 input[type='number']'') #
                 outcome w (Fill (Nth ''.space-y-1 input[type='number']'' 0) ''100'') #
                 (if raises w (Fill (Nth ''.space-y-1 input[type='number']'' 0) ''100'') = None
                  then [Print ''Changed width to 100 (fallback)''] else [])) \<and>
        (matches w ''.space-y-1 input[type='number']'' = 0 \<longrightarrow>
           adjust_width w t =
             (Returned,
              t @ [Ok (Is_visible (First ''input[value='1']'')),
                   Ok (Locator_all ''.space-y-1 input[type='number']''),
                   Print ''Could not find width input'']))) \<and>
     (\<not> visible w (First ''input[value='1']'') \<longrightarrow>
        matches w ''.space-y-1 input[type='number']'' = 0 \<longrightarrow>
        (\<forall>c. raises w c = None) \<longrightarrow>
          fst (verify_batch_tab w []) = Returned \<and>
          fills (snd (verify_batch_tab w [])) = [] \<and>
          Print ''Could not find width input'' \<in> set (snd (verify_batch_tab w [])) \<and>
          files_written (snd (verify_batch_tab w [])) =
            [''verification/batch_tab_verified.png''])"
proof -
  have vis: "raises w (Is_visible width_input) = None"
    using assms by (simp add: width_input_def)
  have first: "snd (adjust_width w t) =
      t @ Ok (Is_visible width_input) # outcome w (Fill width_input ''100'') #
          (if raises w (Fill width_input ''100'') = None then [Print ''Changed width to 100'']
           else [])"
    if "visible w width_input"
    using that vis by (simp add: adjust_width_steps width_trace)
  have second: "snd (adjust_width w t) =
      t @ Ok (Is_visible width_input) # Ok (Locator_all inputs_selector) #
          outcome w (Fill (Nth inputs_selector 0) ''100'') #
          (if raises w (Fill (Nth inputs_selector 0) ''100'') = None
           then [Print ''Changed width to 100 (fallback)''] else [])"
    if "\<not> visible w width_input" "raises w (Locator_all inputs_selector) = None"
      "matches w inputs_selector \<noteq> 0"
    using that vis by (simp add: adjust_width_steps width_trace)
  have third: "adjust_width w t =
      (Returned, t @ [Ok (Is_visible width_input), Ok (Locator_all inputs_selector),
                      Print ''Could not find width input''])"
    if "\<not> visible w width_input" "raises w (Locator_all inputs_selector) = None"
      "matches w inputs_selector = 0"
    using that vis
    by (simp add: adjust_width_steps width_trace width_steps_def)
  have run: "fst (verify_batch_tab w []) = Returned \<and>
      fills (snd (verify_batch_tab w [])) = [] \<and>
      Print ''Could not find width input'' \<in> set (snd (verify_batch_tab w [])) \<and>
      files_written (snd (verify_batch_tab w [])) = [screenshot_path]"
    if nv: "\<not> visible w width_input" and nm: "matches w inputs_selector = 0"
      and ok: "\<forall>c. raises w c = None"
  proof -
    note r = no_failure_result [OF ok]
    have "calls (run_trace w (body_steps w)) = plan (body_steps w)"
      using r(2) by (rule calls_complete)
    then have f: "fills (run_trace w (body_steps w)) = []"
      using nv nm by (simp add: fills_def plan_fills)
    have "Say ''Could not find width input'' \<in> set (body_steps w)"
      using nv nm by (simp add: body_steps_def width_steps_def)
    then have p: "Print ''Could not find width input'' \<in> set (run_trace w (body_steps w))"
      using r(2) prints_complete by blast
    show ?thesis
      using f p
      by (simp add: r fills_simps files_written_simps session_files body_files session_def)
  qed
  from first second third run show ?thesis
    by (simp add: width_input_def inputs_selector_def screenshot_path_def)
qed

theorem width_fallback_chain_witness:
  "snd (adjust_width (healthy True 0) []) =
     [Ok (Is_visible (First ''input[value='1']'')),
      Ok (Fill (First ''input[value='1']'') ''100''),
      Print ''Changed width to 100''] \<and>
   snd (adjust_width (healthy False 3) []) =
     [Ok (Is_visible (First ''input[value='1']'')),
      Ok (Locator_all ''.space-y-1 input[type='number']''),
      Ok (Fill (Nth ''.space-y-1 input[type='number']'' 0) ''100''),
      Print ''Changed width to 100 (fallback)''] \<and>
   adjust_width (healthy False 0) [] =
     (Returned,
      [Ok (Is_visible (First ''input[value='1']'')),
       Ok (Locator_all ''.space-y-1 input[type='number']''),
       Print ''Could not find width input'']) \<and>
   fst (verify_batch_tab (healthy False 0) []) = Returned \<and>
   fills (snd (verify_batch_tab (healthy False 0) [])) = [] \<and>
   files_written (snd (verify_batch_tab (healthy False 0) [])) =
     [''verification/batch_tab_verified.png'']"
  using width_fallback_chain [of "healthy True 0" "[]", OF healthy_raises]
    width_fallback_chain [of "healthy False 3" "[]", OF healthy_raises]
    width_fallback_chain [of "healthy False 0" "[]", OF healthy_raises]
  by (simp add: healthy_answers healthy_raises outcome_None)

text \<open>
  C10. In every run at most one input is filled. The three branches exclude each other:
  when the primary input is visible only it can be filled and \<open>all()\<close> is never called
  on the fallback selector; and when the give-up message is printed nothing was filled.
\<close>

theorem at_most_one_fill:
  "length (fills (snd (verify_batch_tab w []))) \<le> 1 \<and>
   (visible w (First ''input[value='1']'') \<longrightarrow>
      set (fills (snd (verify_batch_tab w []))) \<subseteq> {(First ''input[value='1']'', ''100'')} \<and>
      Locator_all ''.space-y-1 input[type='number']'' \<notin> set (calls (snd (verify_batch_tab w [])))) \<and>
   (Print ''Could not find width input'' \<in> set (snd (verify_batch_tab w [])) \<longrightarrow>
      fills (snd (verify_batch_tab w [])) = [])"
proof -
  let ?tr = "snd (verify_batch_tab w [])"
  let ?plan = "concat (map fill_of (plan (body_steps w)))"
  have pre: "prefix (fills ?tr) ?plan"
    using run_fills [of w] body_fills [of w] by auto
  have "length ?plan \<le> 1"
    by (simp add: plan_fills)
  then have one: "length (fills ?tr) \<le> 1"
    using prefix_length_le [OF pre] by simp
  have primary: "set (fills ?tr) \<subseteq> {(width_input, ''100'')}" if "visible w width_input"
    using set_mono_prefix [OF pre] that by (simp add: plan_fills)
  have no_all: "Locator_all inputs_selector \<notin> set (calls ?tr)" if v: "visible w width_input"
  proof (cases rule: run_cases [of w])
    case (no_context e)
    then show ?thesis by (simp add: run_without_context calls_simps)
  next
    case (no_browser e)
    then show ?thesis by (simp add: run_without_browser calls_simps attempted_outcome)
  next
    case (no_page e)
    then show ?thesis by (simp add: run_without_page calls_simps attempted_outcome)
  next
    case with_session
    have "Locator_all inputs_selector \<notin> set (plan (body_steps w))"
      using v by (simp add: plan_body)
    then have "Locator_all inputs_selector \<notin> set (calls (run_trace w (body_steps w)))"
      using calls_in_plan by blast
    moreover have "Locator_all inputs_selector \<notin> set (calls (handler_events w r))" for r
      by (cases r) (simp_all add: handler_calls)
    ultimately show ?thesis
      by (simp add: run_with_session [OF with_session] calls_simps session_calls
          attempted_outcome)
  qed
  have gave_up: "fills ?tr = []" if "Print ''Could not find width input'' \<in> set ?tr"
  proof -
    have "Say ''Could not find width input'' \<in> set (body_steps w)"
      using run_prints [OF that] by simp
    then have "\<not> visible w width_input \<and> matches w inputs_selector = 0"
      by (simp add: body_steps_def steps_before_width_def width_steps_def
          steps_after_width_def split: if_splits)
    then have "?plan = []"
      by (simp add: plan_fills)
    with pre show ?thesis by simp
  qed
  from one primary no_all gave_up show ?thesis
    by (simp add: width_input_def inputs_selector_def)
qed

theorem at_most_one_fill_witness:
  "fills (snd (verify_batch_tab (healthy True 4) [])) = [(First ''input[value='1']'', ''100'')] \<and>
   Locator_all ''.space-y-1 input[type='number']'' \<notin>
     set (calls (snd (verify_batch_tab (healthy True 4) []))) \<and>
   Print ''Could not find width input'' \<in> set (snd (verify_batch_tab (healthy False 0) [])) \<and>
   fills (snd (verify_batch_tab (healthy False 0) [])) = []"
proof -
  note r = no_failure_result [of "healthy True 4"] no_failure_result [of "healthy False 0"]
  have "fills (run_trace (healthy True 4) (body_steps (healthy True 4))) =
      [(width_input, ''100'')]"
    by (simp add: fills_def calls_complete healthy_body plan_fills healthy_answers)
  then have f: "fills (snd (verify_batch_tab (healthy True 4) [])) = [(width_input, ''100'')]"
    by (simp add: r healthy_raises fills_simps session_def)
  have "Say ''Could not find width input'' \<in> set (body_steps (healthy False 0))"
    by (simp add: body_steps_def width_steps_def healthy_answers)
  then have "Print ''Could not find width input'' \<in>
      set (run_trace (healthy False 0) (body_steps (healthy False 0)))"
    using healthy_body prints_complete by blast
  then have p: "Print ''Could not find width input'' \<in>
      set (snd (verify_batch_tab (healthy False 0) []))"
    by (simp add: r healthy_raises)
  show ?thesis
    using at_most_one_fill [of "healthy True 4"] at_most_one_fill [of "healthy False 0"] f p
    by (simp add: healthy_answers width_input_def)
qed

section \<open>Waits and their timeouts\<close>

text \<open>
  C7. In every run the waits that are made are an initial part of five waits, in this
  order: \<open>text=Image Modifier\<close> with a timeout of 10000 ms (10 s), \<open>text=Batch Processing\<close>
  (visible) and \<open>input[type='file']\<close> (attached) with no timeout argument,
  \<open>text=test_image\<close>, the fixture's name without its extension, with a timeout of
  5000 ms (5 s), and \<open>text=Image Settings\<close> (visible) with no timeout argument. A wait
  without a timeout argument uses the library default. When nothing raises, all five
  are made.
\<close>

theorem wait_timeouts:
  "prefix (waits (snd (verify_batch_tab w [])))
     [(''text=Image Modifier'', Some (10 * 1000), None),
      (''text=Batch Processing'', None, Some ''visible''),
      (''input[type='file']'', None, Some ''attached''),
      (''text='' @ ''test_image'', Some (5 * 1000), None),
      (''text=Image Settings'', None, Some ''visible'')] \<and>
   ((\<forall>c. raises w c = None) \<longrightarrow>
      waits (snd (verify_batch_tab w [])) =
        [(''text=Image Modifier'', Some (10 * 1000), None),
         (''text=Batch Processing'', None, Some ''visible''),
         (''input[type='file']'', None, Some ''attached''),
         (''text='' @ ''test_image'', Some (5 * 1000), None),
         (''text=Image Settings'', None, Some ''visible'')]) \<and>
   fixture_path = ''test_image'' @ ''.png''"
proof -
  let ?plan = "concat (map wait_of (plan (body_steps w)))"
  have "prefix (waits (snd (verify_batch_tab w []))) ?plan"
    using run_waits [of w] body_waits [of w] by auto
  moreover have "waits (snd (verify_batch_tab w [])) = ?plan" if ok: "\<forall>c. raises w c = None"
  proof -
    note r = no_failure_result [OF ok]
    have "calls (run_trace w (body_steps w)) = plan (body_steps w)"
      using r(2) by (rule calls_complete)
    then show ?thesis
      by (simp add: r waits_simps session_def) (simp add: waits_def)
  qed
  ultimately show ?thesis
    by (simp add: plan_waits file_selector_def fixture_path_def)
qed

theorem wait_timeouts_witness:
  "waits (snd (verify_batch_tab (healthy True 0) [])) =
     [(''text=Image Modifier'', Some 10000, None),
      (''text=Batch Processing'', None, Some ''visible''),
      (''input[type='file']'', None, Some ''attached''),
      (''text=test_image'', Some 5000, None),
      (''text=Image Settings'', None, Some ''visible'')]"
  using wait_timeouts [of "healthy True 0"] by (simp add: healthy_raises)

section \<open>The order of the steps\<close>

text \<open>
  C8. No run makes the same library call twice: nothing is retried. When no call raises,
  the run is exactly this sequence: enter the context, launch, new page, go to
  \<open>http://localhost:3000\<close>, wait for \<open>Image Modifier\<close>, click the tab
  \<open>Batch Process\<close>, wait for \<open>Batch Processing\<close> to be visible, wait for the file input
  to be attached, set it to \<open>test_image.png\<close>, wait for \<open>test_image\<close>, wait for
  \<open>Image Settings\<close> to be visible, adjust the width input, sleep 1 second, take the
  screenshot, close the browser, leave the context.
\<close>

theorem success_path_order:
  "distinct (calls (snd (verify_batch_tab w []))) \<and>
   ((\<forall>c. raises w c = None) \<longrightarrow>
      verify_batch_tab w [] =
        (Returned,
         [Ok Playwright_start, Ok Launch, Ok New_page,
          Print ''Navigating to app...'',
          Ok (Goto ''http://localhost:3000''),
          Ok (Wait_for_selector ''text=Image Modifier'' (Some 10000) None),
          Print ''Clicking Batch Process tab...'',
          Ok (Click_role ''tab'' ''Batch Process''),
          Ok (Wait_for_selector ''text=Batch Processing'' None (Some ''visible'')),
          Print ''Uploading image...'',
          Ok (Wait_for_selector ''input[type='file']'' None (Some ''attached'')),
          Ok (Set_input_files ''input[type='file']'' ''test_image.png''),
          Print ''Waiting for image to appear in list...'',
          Ok (Wait_for_selector ''text=test_image'' (Some 5000) None),
          Print ''Checking settings panel...'',
          Ok (Wait_for_selector ''text=Image Settings'' None (Some ''visible'')),
          Ok (Is_visible (First ''input[value='1']''))] @
         (if visible w (First ''input[value='1']'') then
            [Ok (Fill (First ''input[value='1']'') ''100''), Print ''Changed width to 100'']
          else if matches w ''.space-y-1 input[type='number']'' \<noteq> 0 then
            [Ok (Locator_all ''.space-y-1 input[type='number']''),
             Ok (Fill (Nth ''.space-y-1 input[type='number']'' 0) ''100''),
             Print ''Changed width to 100 (fallback)'']
          else
            [Ok (Locator_all ''.space-y-1 input[type='number']''),
             Print ''Could not find width input'']) @
         [Sleep 1,
          Ok (Screenshot ''verification/batch_tab_verified.png'' None),
          Print ''Screenshot saved to verification/batch_tab_verified.png'',
          Ok Close, Ok Playwright_stop]))"
proof -
  have "verify_batch_tab w [] =
      (Returned, session @ run_trace w (body_steps w) @ [Ok Close, Ok Playwright_stop])"
    and "run_trace w (body_steps w) =
      run_trace w steps_before_width @ run_trace w (width_steps w) @
      run_trace w steps_after_width"
    and "run_trace w steps_before_width =
         [Print ''Navigating to app...'',
          Ok (Goto ''http://localhost:3000''),
          Ok (Wait_for_selector ''text=Image Modifier'' (Some 10000) None),
          Print ''Clicking Batch Process tab...'',
          Ok (Click_role ''tab'' ''Batch Process''),
          Ok (Wait_for_selector ''text=Batch Processing'' None (Some ''visible'')),
          Print ''Uploading image...'',
          Ok (Wait_for_selector ''input[type='file']'' None (Some ''attached'')),
          Ok (Set_input_files ''input[type='file']'' ''test_image.png''),
          Print ''Waiting for image to appear in list...'',
          Ok (Wait_for_selector ''text=test_image'' (Some 5000) None),
          Print ''Checking settings panel...'',
          Ok (Wait_for_selector ''text=Image Settings'' None (Some ''visible''))]"
    and "run_trace w steps_after_width =
         [Sleep 1,
          Ok (Screenshot ''verification/batch_tab_verified.png'' None),
          Print ''Screenshot saved to verification/batch_tab_verified.png'']"
    if ok: "\<forall>c. raises w c = None"
  proof -
    show "verify_batch_tab w [] =
      (Returned, session @ run_trace w (body_steps w) @ [Ok Close, Ok Playwright_stop])"
      using ok by (rule no_failure_result)
    have "run_result w steps_before_width = Returned" "run_result w (width_steps w) = Returned"
      using ok by (simp_all add: run_result_no_failure)
    then show "run_trace w (body_steps w) =
      run_trace w steps_before_width @ run_trace w (width_steps w) @
      run_trace w steps_after_width"
      by (simp add: body_steps_def run_trace_append)
    show "run_trace w steps_before_width =
         [Print ''Navigating to app...'',
          Ok (Goto ''http://localhost:3000''),
          Ok (Wait_for_selector ''text=Image Modifier'' (Some 10000) None),
          Print ''Clicking Batch Process tab...'',
          Ok (Click_role ''tab'' ''Batch Process''),
          Ok (Wait_for_selector ''text=Batch Processing'' None (Some ''visible'')),
          Print ''Uploading image...'',
          Ok (Wait_for_selector ''input[type='file']'' None (Some ''attached'')),
          Ok (Set_input_files ''input[type='file']'' ''test_image.png''),
          Print ''Waiting for image to appear in list...'',
          Ok (Wait_for_selector ''text=test_image'' (Some 5000) None),
          Print ''Checking settings panel...'',
          Ok (Wait_for_selector ''text=Image Settings'' None (Some ''visible''))]"
      using ok
      by (simp add: steps_before_width_def app_url_def file_selector_def fixture_path_def)
    show "run_trace w steps_after_width =
         [Sleep 1,
          Ok (Screenshot ''verification/batch_tab_verified.png'' None),
          Print ''Screenshot saved to verification/batch_tab_verified.png'']"
      using ok by (simp add: steps_after_width_def screenshot_path_def)
  qed
  moreover have "run_trace w (width_steps w) =
      Ok (Is_visible (First ''input[value='1']'')) #
         (if visible w (First ''input[value='1']'') then
            [Ok (Fill (First ''input[value='1']'') ''100''), Print ''Changed width to 100'']
          else if matches w ''.space-y-1 input[type='number']'' \<noteq> 0 then
            [Ok (Locator_all ''.space-y-1 input[type='number']''),
             Ok (Fill (Nth ''.space-y-1 input[type='number']'' 0) ''100''),
             Print ''Changed width to 100 (fallback)'']
          else
            [Ok (Locator_all ''.space-y-1 input[type='number']''),
             Print ''Could not find width input''])"
    if ok: "\<forall>c. raises w c = None"
    using ok by (simp add: width_trace outcome_None width_input_def inputs_selector_def)
  ultimately show ?thesis
    using run_calls_distinct [of w] by (simp add: session_def)
qed

theorem success_path_order_witness:
  "verify_batch_tab (healthy False 0) [] =
     (Returned,
      [Ok Playwright_start, Ok Launch, Ok New_page,
       Print ''Navigating to app...'',
       Ok (Goto ''http://localhost:3000''),
       Ok (Wait_for_selector ''text=Image Modifier'' (Some 10000) None),
       Print ''Clicking Batch Process tab...'',
       Ok (Click_role ''tab'' ''Batch Process''),
       Ok (Wait_for_selector ''text=Batch Processing'' None (Some ''visible'')),
       Print ''Uploading image...'',
       Ok (Wait_for_selector ''input[type='file']'' None (Some ''attached'')),
       Ok (Set_input_files ''input[type='file']'' ''test_image.png''),
       Print ''Waiting for image to appear in list...'',
       Ok (Wait_for_selector ''text=test_image'' (Some 5000) None),
       Print ''Checking settings panel...'',
       Ok (Wait_for_selector ''text=Image Settings'' None (Some ''visible'')),
       Ok (Is_visible (First ''input[value='1']'')),
       Ok (Locator_all ''.space-y-1 input[type='number']''),
       Print ''Could not find width input'',
       Sleep 1,
       Ok (Screenshot ''verification/batch_tab_verified.png'' None),
       Print ''Screenshot saved to verification/batch_tab_verified.png'',
       Ok Close, Ok Playwright_stop])"
  using success_path_order [of "healthy False 0"]
  by (simp add: healthy_raises healthy_answers)

section \<open>Failures before the try statement\<close>

text \<open>
  C9. \<open>p.chromium.launch()\<close> and \<open>browser.new_page()\<close> stand before the \<open>try\<close>
  statement. When one of them raises, only the exit of the Playwright context follows:
  the handler prints nothing and takes no screenshot, the exception reaches the caller
  (unless the context exit raises one of its own, which then does), and after a failed
  \<open>new_page()\<close> the \<open>browser.close()\<close> of the \<open>finally\<close> clause is not called.
\<close>

theorem setup_failure_propagates:
  assumes "raises w Playwright_start = None"
  shows
    "(raises w Launch = Some e \<longrightarrow>
        verify_batch_tab w [] =
          (case raises w Playwright_stop of None \<Rightarrow> Raised e | Some e' \<Rightarrow> Raised e',
           [Ok Playwright_start, Failed Launch e, outcome w Playwright_stop])) \<and>
     (raises w Launch = None \<longrightarrow> raises w New_page = Some e \<longrightarrow>
        verify_batch_tab w [] =
          (case raises w Playwright_stop of None \<Rightarrow> Raised e | Some e' \<Rightarrow> Raised e',
           [Ok Playwright_start, Ok Launch, Failed New_page e, outcome w Playwright_stop]) \<and>
        Close \<notin> set (calls (snd (verify_batch_tab w []))))"
  using assms
  by (simp add: run_without_browser run_without_page after_cleanup_def calls_simps
      attempted_outcome)

theorem setup_failure_propagates_witness:
  "verify_batch_tab no_browser [] =
     (Raised ''Executable not found'',
      [Ok Playwright_start, Failed Launch ''Executable not found'', Ok Playwright_stop]) \<and>
   verify_batch_tab no_page [] =
     (Raised ''Target closed'',
      [Ok Playwright_start, Ok Launch, Failed New_page ''Target closed'',
       Ok Playwright_stop]) \<and>
   Close \<notin> set (calls (snd (verify_batch_tab no_page [])))"
proof -
  have b: "raises no_browser Playwright_start = None"
    "raises no_browser Launch = Some ''Executable not found''"
    "raises no_browser Playwright_stop = None"
    by (simp_all add: no_browser_def failing_raises)
  have p: "raises no_page Playwright_start = None" "raises no_page Launch = None"
    "raises no_page New_page = Some ''Target closed''"
    "raises no_page Playwright_stop = None"
    by (simp_all add: no_page_def failing_raises)
  show ?thesis
    using setup_failure_propagates [OF b(1), of "''Executable not found''"]
      setup_failure_propagates [OF p(1), of "''Target closed''"] b p
    by (simp add: outcome_None calls_simps)
qed

end
